theory Spec2Isabelle
  imports
    Complex_Main
    "HOL-Library.Char_ord"
    "HOL-Library.List_Lexorder"
    "HOL-Library.Multiset"
begin

section \<open>The table\<close>

text \<open>
  \<^verbatim>\<open>build_students_dashboard.py\<close> is one top-level script over a pandas DataFrame
  \<^verbatim>\<open>df\<close>. After \<^verbatim>\<open>df.rename(columns=col_map)\<close> the frame has the five
  categorical columns and the three score columns of \<^verbatim>\<open>col_map\<close>. A frame is
  modelled as the list of its rows, in index order. A cell that pandas holds as
  \<^verbatim>\<open>NaN\<close> is \<open>None\<close>.

  Scores are exact reals. The script computes in float64, so a mean or a rounded
  Average of the model is the value of the script only where the float operations are
  exact, as they are on the tables evaluated below; a sum that overflows to an
  infinity has no counterpart in the model.
\<close>

record row =
  Gender :: "string option"
  Race_Ethnicity :: "string option"
  Parental_Education :: "string option"
  Lunch :: "string option"
  Test_Prep :: "string option"
  Math :: "real option"
  Reading :: "real option"
  Writing :: "real option"

text \<open>
  The exceptions of the modelled calls: \<^verbatim>\<open>.iloc[0]\<close> on an empty Series,
  \<^verbatim>\<open>pd.cut\<close> on bins or labels it refuses, and \<^verbatim>\<open>pd.ExcelWriter\<close> asking for an
  engine whose package cannot be imported.
\<close>

datatype py_error = IndexError | ValueError | ImportError

text \<open>\<^verbatim>\<open>Series.isna()\<close>, \<^verbatim>\<open>.any()\<close>, \<^verbatim>\<open>.sum()\<close> and \<^verbatim>\<open>dropna\<close> on one column.\<close>

definition isna :: "'a option \<Rightarrow> bool" where
  "isna v = (v = None)"

definition isna_any :: "'a option list \<Rightarrow> bool" where
  "isna_any col = list_ex isna col"

definition isna_count :: "'a option list \<Rightarrow> nat" where
  "isna_count col = length (filter isna col)"

fun dropna :: "'a option list \<Rightarrow> 'a list" where
  "dropna [] = []"
| "dropna (None # col) = dropna col"
| "dropna (Some v # col) = v # dropna col"

section \<open>Step 2: data quality checks\<close>

text \<open>
  \<^verbatim>\<open>df.isna().sum()\<close>: the number of missing cells of every column, in column order
  (the order of the CSV header of \<^verbatim>\<open>col_map\<close>).
\<close>

definition isna_sum :: "row list \<Rightarrow> (string \<times> nat) list" where
  "isna_sum df =
     [(''Gender'', isna_count (map Gender df)),
      (''Race_Ethnicity'', isna_count (map Race_Ethnicity df)),
      (''Parental_Education'', isna_count (map Parental_Education df)),
      (''Lunch'', isna_count (map Lunch df)),
      (''Test_Prep'', isna_count (map Test_Prep df)),
      (''Math'', isna_count (map Math df)),
      (''Reading'', isna_count (map Reading df)),
      (''Writing'', isna_count (map Writing df))]"

text \<open>
  \<^verbatim>\<open>df.duplicated()\<close> marks a row that equals an earlier row in every column (two
  missing cells count as equal); \<^verbatim>\<open>.sum()\<close> counts the marks. Nothing is dropped.
\<close>

fun duplicated :: "'a list \<Rightarrow> 'a list \<Rightarrow> bool list" where
  "duplicated seen [] = []"
| "duplicated seen (r # rs) = (r \<in> set seen) # duplicated (r # seen) rs"

definition duplicate_count :: "'a list \<Rightarrow> nat" where
  "duplicate_count df = length (filter (\<lambda>b. b) (duplicated [] df))"

section \<open>Sorting by a column\<close>

text \<open>
  \<^verbatim>\<open>sort_values(col, ascending=False)\<close> is called with the default
  \<^verbatim>\<open>kind='quicksort'\<close>, which pandas documents as not stable. pandas computes an
  indexer with \<^verbatim>\<open>nargsort(keys, kind, ascending=False, na_position='last')\<close> and
  takes the rows at these positions. The sorting routine itself is library code, so it
  is a parameter \<open>nargsort\<close> of the model, and \<open>nargsort_desc keys idx\<close> is what the
  library promises of its result \<open>idx\<close>: a permutation of the positions, keys
  descending, missing keys last. The order among equal keys is left open.
\<close>

fun key_ge :: "real option \<Rightarrow> real option \<Rightarrow> bool" where
  "key_ge _ None = True"
| "key_ge None (Some _) = False"
| "key_ge (Some a) (Some b) = (b \<le> a)"

definition nargsort_desc :: "real option list \<Rightarrow> nat list \<Rightarrow> bool" where
  "nargsort_desc keys idx =
     (sort idx = [0..<length keys] \<and> sorted_wrt (\<lambda>i j. key_ge (keys ! i) (keys ! j)) idx)"

definition take_rows :: "'a list \<Rightarrow> nat list \<Rightarrow> 'a list" where
  "take_rows df idx = map (\<lambda>i. df ! i) idx"

definition sort_values_desc ::
  "(real option list \<Rightarrow> nat list) \<Rightarrow> ('a \<Rightarrow> real option) \<Rightarrow> 'a list \<Rightarrow> 'a list" where
  "sort_values_desc nargsort key df = take_rows df (nargsort (map key df))"

text \<open>\<^verbatim>\<open>.head(n)\<close>: the first \<open>n\<close> rows, all of them when there are fewer.\<close>

definition head :: "nat \<Rightarrow> 'a list \<Rightarrow> 'a list" where
  "head n df = take n df"

text \<open>
  \<^verbatim>\<open>missing_counts = df.isna().sum().sort_values(ascending=False)\<close>.
\<close>

definition missing_counts ::
  "(real option list \<Rightarrow> nat list) \<Rightarrow> row list \<Rightarrow> (string \<times> nat) list" where
  "missing_counts nargsort df =
     sort_values_desc nargsort (\<lambda>(c, v). Some (real v)) (isna_sum df)"

section \<open>Step 3: filling missing values\<close>

text \<open>\<^verbatim>\<open>Series.mean()\<close> skips missing cells and is \<^verbatim>\<open>NaN\<close> when none is left.\<close>

definition mean :: "real option list \<Rightarrow> real option" where
  "mean col =
     (let vs = dropna col
      in if vs = [] then None else Some (sum_list vs / real (length vs)))"

text \<open>\<^verbatim>\<open>fillna(value)\<close> on one cell; filling with \<^verbatim>\<open>NaN\<close> changes nothing.\<close>

definition fillna :: "'a option \<Rightarrow> 'a option \<Rightarrow> 'a option" where
  "fillna value v = (case v of None \<Rightarrow> value | Some x \<Rightarrow> Some x)"

text \<open>
  The body of \<^verbatim>\<open>for c in num_cols\<close> for one column, given by its selector and its
  update function.
\<close>

definition fill_num ::
  "(row \<Rightarrow> real option) \<Rightarrow> ((real option \<Rightarrow> real option) \<Rightarrow> row \<Rightarrow> row) \<Rightarrow> row list \<Rightarrow> row list" where
  "fill_num sel upd df =
     (if isna_any (map sel df)
      then map (upd (fillna (mean (map sel df)))) df
      else df)"

text \<open>
  \<^verbatim>\<open>Series.mode()\<close>: the values that occur most often among the cells present,
  each once, sorted ascending (pandas sorts the modes). \<^verbatim>\<open>.iloc[0]\<close> is the first
  of them and raises \<^verbatim>\<open>IndexError\<close> when there is none.
\<close>

definition max_count :: "'a list \<Rightarrow> nat" where
  "max_count vs = fold max (map (count_list vs) vs) 0"

definition mode :: "'a::linorder option list \<Rightarrow> 'a list" where
  "mode col =
     (let vs = dropna col
      in sort (remdups (filter (\<lambda>v. count_list vs v = max_count vs) vs)))"

definition iloc0 :: "'a list \<Rightarrow> py_error + 'a" where
  "iloc0 s = (case s of [] \<Rightarrow> Inl IndexError | v # _ \<Rightarrow> Inr v)"

text \<open>An exception ends the script: the steps after a failed one do not run.\<close>

definition and_then :: "'e + 'a \<Rightarrow> ('a \<Rightarrow> 'e + 'b) \<Rightarrow> 'e + 'b" where
  "and_then r f = case_sum Inl f r"

text \<open>The body of \<^verbatim>\<open>for c in cat_cols\<close> for one column.\<close>

definition fill_cat ::
  "(row \<Rightarrow> string option) \<Rightarrow> ((string option \<Rightarrow> string option) \<Rightarrow> row \<Rightarrow> row) \<Rightarrow>
   row list \<Rightarrow> py_error + row list" where
  "fill_cat sel upd df =
     (if isna_any (map sel df)
      then and_then (iloc0 (mode (map sel df))) (\<lambda>m. Inr (map (upd (fillna (Some m))) df))
      else Inr df)"

text \<open>
  A column name \<open>c\<close> stands for the cells \<^verbatim>\<open>df[c]\<close> and for the assignment
  \<^verbatim>\<open>df[c] = ...\<close>: a column is its name, its selector and its update function.
  \<^verbatim>\<open>num_cols = ['Math', 'Reading', 'Writing']\<close>, and \<^verbatim>\<open>cat_cols\<close> is every other
  column, in column order.
\<close>

type_synonym 'a column = "string \<times> (row \<Rightarrow> 'a option) \<times> (('a option \<Rightarrow> 'a option) \<Rightarrow> row \<Rightarrow> row)"

definition num_cols :: "real column list" where
  "num_cols =
     [(''Math'', Math, Math_update),
      (''Reading'', Reading, Reading_update),
      (''Writing'', Writing, Writing_update)]"

definition cat_cols :: "string column list" where
  "cat_cols =
     [(''Gender'', Gender, Gender_update),
      (''Race_Ethnicity'', Race_Ethnicity, Race_Ethnicity_update),
      (''Parental_Education'', Parental_Education, Parental_Education_update),
      (''Lunch'', Lunch, Lunch_update),
      (''Test_Prep'', Test_Prep, Test_Prep_update)]"

text \<open>The two loops of step 3.\<close>

definition fill_num_cols :: "row list \<Rightarrow> row list" where
  "fill_num_cols df = fold (\<lambda>(c, sel, upd) df. fill_num sel upd df) num_cols df"

definition fill_cat_cols :: "row list \<Rightarrow> py_error + row list" where
  "fill_cat_cols df =
     fold (\<lambda>(c, sel, upd) res. and_then res (fill_cat sel upd)) cat_cols (Inr df)"

definition fill_missing :: "row list \<Rightarrow> py_error + row list" where
  "fill_missing df = fill_cat_cols (fill_num_cols df)"

text \<open>No cell of a row is missing.\<close>

definition row_complete :: "row \<Rightarrow> bool" where
  "row_complete r =
     (\<not> isna (Gender r) \<and> \<not> isna (Race_Ethnicity r) \<and> \<not> isna (Parental_Education r) \<and>
      \<not> isna (Lunch r) \<and> \<not> isna (Test_Prep r) \<and>
      \<not> isna (Math r) \<and> \<not> isna (Reading r) \<and> \<not> isna (Writing r))"

section \<open>Step 4: derived columns\<close>

text \<open>
  \<^verbatim>\<open>df[num_cols].mean(axis=1)\<close> is the mean of the scores present in the row
  (pandas skips missing cells), and \<^verbatim>\<open>.round(2)\<close> rounds to two decimals, a tie going
  to the even neighbour. Both are taken in exact arithmetic here (see the first
  section); no claim below rests on the value of a rounded mean beyond the tables on
  which it is evaluated.
\<close>

definition rint :: "real \<Rightarrow> int" where
  "rint x =
     (let f = \<lfloor>x\<rfloor>; d = x - of_int f
      in if d < 1 / 2 then f
         else if 1 / 2 < d then f + 1
         else if even f then f else f + 1)"

definition round2 :: "real \<Rightarrow> real" where
  "round2 x = of_int (rint (x * 100)) / 100"

definition average :: "row \<Rightarrow> real option" where
  "average r = map_option round2 (mean [Math r, Reading r, Writing r])"

text \<open>
  \<^verbatim>\<open>pd.cut(x, bins, labels)\<close> with the default \<^verbatim>\<open>right=True\<close>: the position of
  \<open>x\<close> among the bin edges is \<^verbatim>\<open>bins.searchsorted(x, side='left')\<close>, the number of
  edges below \<open>x\<close>; position \<open>0\<close>, position \<open>len(bins)\<close> and a missing \<open>x\<close> give a
  missing label, any other position \<open>i\<close> gives \<^verbatim>\<open>labels[i - 1]\<close>. No error is raised.
\<close>

datatype edge = NegInf | Edge real | PosInf

fun edge_less :: "edge \<Rightarrow> real \<Rightarrow> bool" where
  "edge_less NegInf x = True"
| "edge_less (Edge b) x = (b < x)"
| "edge_less PosInf x = False"

definition searchsorted_left :: "edge list \<Rightarrow> real \<Rightarrow> nat" where
  "searchsorted_left bs x = length (takeWhile (\<lambda>b. edge_less b x) bs)"

datatype band = Low | Fair | Good | Excellent

definition bins :: "edge list" where
  "bins = [NegInf, Edge 50, Edge 70, Edge 85, PosInf]"

definition labels :: "band list" where
  "labels = [Low, Fair, Good, Excellent]"

definition pd_cut :: "real option \<Rightarrow> band option" where
  "pd_cut x =
     (case x of
        None \<Rightarrow> None
      | Some v \<Rightarrow>
          (let i = searchsorted_left bins v
           in if i = 0 \<or> i = length bins then None else Some (labels ! (i - 1))))"

text \<open>A row of the frame after step 4: the loaded columns and the two derived ones.\<close>

record drow =
  Row :: row
  Average :: "real option"
  Performance_Band :: "band option"

definition derive_row :: "row \<Rightarrow> drow" where
  "derive_row r = \<lparr>Row = r, Average = average r, Performance_Band = pd_cut (average r)\<rparr>"

definition derive :: "row list \<Rightarrow> drow list" where
  "derive df = map derive_row df"

text \<open>
  Before it looks at the values, \<^verbatim>\<open>pd.cut\<close> checks its arguments and raises
  \<^verbatim>\<open>ValueError\<close> when the bin edges do not increase, when an edge is repeated
  (among more than two), when a label is repeated or when the labels are not one fewer
  than the edges. These are its only errors on a numeric column: no value of the
  column, missing or not, makes it raise. Lines 56 to 60 as one step:
\<close>

fun edge_le :: "edge \<Rightarrow> edge \<Rightarrow> bool" where
  "edge_le NegInf _ = True"
| "edge_le (Edge a) NegInf = False"
| "edge_le (Edge a) (Edge b) = (a \<le> b)"
| "edge_le (Edge a) PosInf = True"
| "edge_le PosInf PosInf = True"
| "edge_le PosInf _ = False"

definition cut_checks :: "edge list \<Rightarrow> band list \<Rightarrow> bool" where
  "cut_checks bs ls =
     (sorted_wrt edge_le bs \<and> (distinct bs \<or> length bs = 2) \<and> distinct ls
      \<and> length ls = length bs - 1)"

definition add_band :: "row list \<Rightarrow> py_error + drow list" where
  "add_band df = (if cut_checks bins labels then Inr (derive df) else Inl ValueError)"

section \<open>Steps 5 and 6: sorted views and aggregations\<close>

text \<open>
  \<^verbatim>\<open>df.sort_values('Average', ascending=False).head(20)\<close> and the same by
  \<^verbatim>\<open>'Math'\<close>.
\<close>

definition sorted_by_avg_desc :: "(real option list \<Rightarrow> nat list) \<Rightarrow> drow list \<Rightarrow> drow list" where
  "sorted_by_avg_desc nargsort df = head 20 (sort_values_desc nargsort Average df)"

definition sorted_by_math_desc :: "(real option list \<Rightarrow> nat list) \<Rightarrow> drow list \<Rightarrow> drow list" where
  "sorted_by_math_desc nargsort df = head 20 (sort_values_desc nargsort (\<lambda>r. Math (Row r)) df)"

text \<open>
  \<^verbatim>\<open>df.groupby(col)[num_cols + ['Average']].mean().round(2)\<close>: one group per value
  present in the column, in ascending order of the value; the mean of each of the four
  columns over the rows of the group, rounded.
\<close>

definition groupby_mean :: "(drow \<Rightarrow> string option) \<Rightarrow> drow list \<Rightarrow> (string \<times> real option list) list" where
  "groupby_mean key df =
     map (\<lambda>g. (g, map (\<lambda>col. map_option round2 (mean (map col (filter (\<lambda>r. key r = Some g) df))))
                   [\<lambda>r. Math (Row r), \<lambda>r. Reading (Row r), \<lambda>r. Writing (Row r), Average]))
       (sort (remdups (dropna (map key df))))"

text \<open>
  \<^verbatim>\<open>df['Performance_Band'].value_counts()\<close> on the categorical column that
  \<^verbatim>\<open>pd.cut\<close> made: one entry per category, also for a category no row has, missing
  bands not counted, entries sorted by count, descending. \<^verbatim>\<open>.sort_index()\<close> then
  orders the entries by the position of the category in \<^verbatim>\<open>labels\<close>; the categories
  are distinct, so every sorting routine gives the same order.
\<close>

definition value_counts ::
  "(real option list \<Rightarrow> nat list) \<Rightarrow> band option list \<Rightarrow> (band \<times> nat) list" where
  "value_counts nargsort col =
     sort_values_desc nargsort (\<lambda>(b, n). Some (real n))
       (map (\<lambda>b. (b, count_list (dropna col) b)) labels)"

fun code :: "band \<Rightarrow> nat" where
  "code Low = 0"
| "code Fair = 1"
| "code Good = 2"
| "code Excellent = 3"

definition sort_index :: "(band \<times> nat) list \<Rightarrow> (band \<times> nat) list" where
  "sort_index s = sort_key (\<lambda>(b, n). code b) s"

definition band_counts :: "(real option list \<Rightarrow> nat list) \<Rightarrow> drow list \<Rightarrow> (band \<times> nat) list" where
  "band_counts nargsort df = sort_index (value_counts nargsort (map Performance_Band df))"

section \<open>Step 8: the workbook\<close>

text \<open>
  The branch \<^verbatim>\<open>if OPENPYXL_OK\<close>. A sheet is the list of the rows appended to it, a
  row the list of the values passed to \<^verbatim>\<open>append\<close>. The four plots and their
  captions, written after the last appended row, are not modelled.
\<close>

datatype cell = Str string | Num real | NaN

definition str_cell :: "string option \<Rightarrow> cell" where
  "str_cell v = (case v of None \<Rightarrow> NaN | Some s \<Rightarrow> Str s)"

definition num_cell :: "real option \<Rightarrow> cell" where
  "num_cell v = (case v of None \<Rightarrow> NaN | Some x \<Rightarrow> Num x)"

fun label_str :: "band \<Rightarrow> string" where
  "label_str Low = ''Low''"
| "label_str Fair = ''Fair''"
| "label_str Good = ''Good''"
| "label_str Excellent = ''Excellent''"

definition columns :: "string list" where
  "columns =
     map fst cat_cols @ map fst num_cols @ [''Average'', ''Performance_Band'']"

definition row_values :: "drow \<Rightarrow> cell list" where
  "row_values r =
     [str_cell (Gender (Row r)), str_cell (Race_Ethnicity (Row r)),
      str_cell (Parental_Education (Row r)), str_cell (Lunch (Row r)),
      str_cell (Test_Prep (Row r)),
      num_cell (Math (Row r)), num_cell (Reading (Row r)), num_cell (Writing (Row r)),
      num_cell (Average r), str_cell (map_option label_str (Performance_Band r))]"

text \<open>\<^verbatim>\<open>dataframe_to_rows(df, index=False, header=True)\<close>: the header, then every row.\<close>

definition dataframe_to_rows :: "drow list \<Rightarrow> cell list list" where
  "dataframe_to_rows df = map Str columns # map row_values df"

definition write_title :: "string \<Rightarrow> cell list list" where
  "write_title title = [[Str title], []]"

definition aggregation_block ::
  "string \<Rightarrow> string \<Rightarrow> (string \<times> real option list) list \<Rightarrow> cell list list" where
  "aggregation_block title key view =
     write_title title
     @ [map Str (key # map fst num_cols @ [''Average''])]
     @ map (\<lambda>(idx, vals). Str idx # map num_cell vals) view
     @ [[]]"

definition top_block :: "string \<Rightarrow> drow list \<Rightarrow> cell list list" where
  "top_block title view =
     write_title title @ [map Str columns] @ map row_values view @ [[]]"

definition data_quality_block :: "nat \<Rightarrow> (string \<times> nat) list \<Rightarrow> cell list list" where
  "data_quality_block dups missing =
     write_title ''Data Quality''
     @ [[Str ''Duplicate Rows'', Num (real dups)], [],
        [Str ''Missing Values (per column)''],
        [Str ''Column'', Str ''Missing'']]
     @ map (\<lambda>(c, v). [Str c, Num (real v)]) missing
     @ [[]]"

record workbook =
  Cleaned_Data :: "cell list list"
  Summary :: "cell list list"

text \<open>
  The rows that the script, from step 2 to \<^verbatim>\<open>wb.save\<close>, appends to the two sheets,
  on the frame \<open>df0\<close> that step 1 loaded. The quality checks run on \<open>df0\<close>, before
  the fill. Of the exceptions of a run only the fill's is modelled: \<open>build\<close> gives
  the rows also where plotting (step 7) or the worksheet (a string it refuses) would
  stop the script, so \<open>build nargsort df0 = Inr wb\<close> holds on every run that reaches
  \<^verbatim>\<open>wb.save\<close>, and on some that do not.
\<close>

definition build :: "(real option list \<Rightarrow> nat list) \<Rightarrow> row list \<Rightarrow> py_error + workbook" where
  "build nargsort df0 =
     (let missing = missing_counts nargsort df0;
          dups = duplicate_count df0
      in and_then (fill_missing df0) (\<lambda>df1.
           let df = derive df1
           in Inr \<lparr>Cleaned_Data = dataframe_to_rows df,
                   Summary =
                     data_quality_block dups missing
                     @ aggregation_block ''Average Scores by Gender'' ''Gender''
                         (groupby_mean (\<lambda>r. Gender (Row r)) df)
                     @ aggregation_block ''Average Scores by Race/Ethnicity'' ''Race_Ethnicity''
                         (groupby_mean (\<lambda>r. Race_Ethnicity (Row r)) df)
                     @ aggregation_block ''Scores by Test Preparation'' ''Test_Prep''
                         (groupby_mean (\<lambda>r. Test_Prep (Row r)) df)
                     @ top_block ''Top 20 by Average'' (sorted_by_avg_desc nargsort df)
                     @ top_block ''Top 20 by Math'' (sorted_by_math_desc nargsort df)\<rparr>))"

section \<open>The two branches of step 8\<close>

text \<open>
  Lines 7 to 13 set \<^verbatim>\<open>OPENPYXL_OK\<close> to whether three names of the package
  \<^verbatim>\<open>openpyxl\<close> could be imported. The environment of a run is whether that package
  can be imported; an installation where it imports for pandas and not for the script
  is not modelled.
\<close>

record environment =
  openpyxl_imports :: bool

definition OPENPYXL_OK :: "environment \<Rightarrow> bool" where
  "OPENPYXL_OK e = openpyxl_imports e"

text \<open>
  \<^verbatim>\<open>with pd.ExcelWriter(OUT_XLSX, engine='openpyxl') as writer:\<close> makes the writer of
  the engine named, which imports \<^verbatim>\<open>openpyxl\<close>; the body runs when the writer exists.
\<close>

definition ExcelWriter :: "environment \<Rightarrow> py_error + unit" where
  "ExcelWriter e = (if openpyxl_imports e then Inr () else Inl ImportError)"

definition with_ExcelWriter :: "environment \<Rightarrow> (unit \<Rightarrow> py_error + 'a) \<Rightarrow> py_error + 'a" where
  "with_ExcelWriter e body = and_then (ExcelWriter e) body"

text \<open>
  The body of the fallback. A frame is its column names and its rows.
  \<^verbatim>\<open>to_excel(..., index=False)\<close> writes the names, then the rows, a missing cell as
  the empty string (\<^verbatim>\<open>na_rep=''\<close>). \<^verbatim>\<open>out_df\<close> is the list of the summary blocks,
  each followed by the empty frame with one column named \<^verbatim>\<open>''\<close>; the sheet written
  from \<^verbatim>\<open>pd.concat(out_df)\<close> is not modelled beyond this list.
\<close>

type_synonym frame = "string list \<times> cell list list"

definition na_rep :: "cell \<Rightarrow> cell" where
  "na_rep c = (case c of NaN \<Rightarrow> Str '''' | Str s \<Rightarrow> Str s | Num x \<Rightarrow> Num x)"

definition to_excel :: "frame \<Rightarrow> cell list list" where
  "to_excel f = map Str (fst f) # map (map na_rep) (snd f)"

definition section_frame :: "string \<Rightarrow> frame" where
  "section_frame title = ([''Section''], [[Str title]])"

definition reset_index :: "string \<Rightarrow> (string \<times> real option list) list \<Rightarrow> frame" where
  "reset_index key view =
     (key # map fst num_cols @ [''Average''],
      map (\<lambda>(idx, vals). Str idx # map num_cell vals) view)"

definition summary_blocks ::
  "nat \<Rightarrow> (string \<times> nat) list \<Rightarrow> (real option list \<Rightarrow> nat list) \<Rightarrow> drow list \<Rightarrow> frame list" where
  "summary_blocks dups missing nargsort df =
     [([''Metric'', ''Value''], [[Str ''Duplicate Rows'', Num (real dups)]]),
      ([''Column'', ''Missing''], map (\<lambda>(c, v). [Str c, Num (real v)]) missing),
      section_frame ''Average by Gender'',
      reset_index ''Gender'' (groupby_mean (\<lambda>r. Gender (Row r)) df),
      section_frame ''Average by Race/Ethnicity'',
      reset_index ''Race_Ethnicity'' (groupby_mean (\<lambda>r. Race_Ethnicity (Row r)) df),
      section_frame ''Scores by Test Prep'',
      reset_index ''Test_Prep'' (groupby_mean (\<lambda>r. Test_Prep (Row r)) df),
      section_frame ''Top 20 by Average'',
      (columns, map row_values (sorted_by_avg_desc nargsort df)),
      section_frame ''Top 20 by Math'',
      (columns, map row_values (sorted_by_math_desc nargsort df))]"

definition out_df :: "frame list \<Rightarrow> frame list" where
  "out_df blocks = concat (map (\<lambda>block. [block, ([''''], [])]) blocks)"

record fallback_book =
  Cleaned_Data_sheet :: "cell list list"
  Summary_blocks :: "frame list"

definition build_fallback ::
  "environment \<Rightarrow> (real option list \<Rightarrow> nat list) \<Rightarrow> row list \<Rightarrow> py_error + fallback_book" where
  "build_fallback e nargsort df0 =
     (let missing = missing_counts nargsort df0;
          dups = duplicate_count df0
      in and_then (fill_missing df0) (\<lambda>df1.
           let df = derive df1
           in with_ExcelWriter e (\<lambda>writer.
                Inr \<lparr>Cleaned_Data_sheet = to_excel (columns, map row_values df),
                     Summary_blocks = out_df (summary_blocks dups missing nargsort df)\<rparr>)))"

text \<open>Step 8: \<^verbatim>\<open>if OPENPYXL_OK: ... else: ...\<close>.\<close>

definition export ::
  "environment \<Rightarrow> (real option list \<Rightarrow> nat list) \<Rightarrow> row list
   \<Rightarrow> py_error + (workbook + fallback_book)" where
  "export e nargsort df0 =
     (if OPENPYXL_OK e then map_sum id Inl (build nargsort df0)
      else map_sum id Inr (build_fallback e nargsort df0))"

section \<open>Notions of the specification, and a sorting routine\<close>

text \<open>The four intervals of the specification, as predicates on the reals.\<close>

fun in_band :: "band \<Rightarrow> real \<Rightarrow> bool" where
  "in_band Low x = (x \<le> 50)"
| "in_band Fair x = (50 < x \<and> x \<le> 70)"
| "in_band Good x = (70 < x \<and> x \<le> 85)"
| "in_band Excellent x = (85 < x)"

text \<open>
  The specification's tie-break for the mode: the value seen first, in row order,
  among the most frequent ones.
\<close>

definition first_seen_mode :: "'a option list \<Rightarrow> 'a option" where
  "first_seen_mode col =
     (let vs = dropna col in find (\<lambda>v. count_list vs v = max_count vs) vs)"

text \<open>
  A sorting routine that keeps the contract, by insertion from the right: an element
  goes before the elements whose key is not greater than its own. It stands in for
  the library's routine where a theorem is evaluated on a concrete table.
\<close>

fun insort_desc :: "('a \<Rightarrow> real option) \<Rightarrow> 'a \<Rightarrow> 'a list \<Rightarrow> 'a list" where
  "insort_desc key x [] = [x]"
| "insort_desc key x (y # ys) =
     (if key_ge (key x) (key y) then x # y # ys else y # insort_desc key x ys)"

definition stable_sort_desc :: "('a \<Rightarrow> real option) \<Rightarrow> 'a list \<Rightarrow> 'a list" where
  "stable_sort_desc key xs = foldr (insort_desc key) xs []"

definition stable_nargsort :: "real option list \<Rightarrow> nat list" where
  "stable_nargsort keys = stable_sort_desc (\<lambda>i. keys ! i) [0..<length keys]"

text \<open>
  The specification's formula for the Average, \<^verbatim>\<open>round((Math + Reading + Writing) / 3, 2)\<close>:
  a sum with a missing term is missing.
\<close>

definition spec_average :: "row \<Rightarrow> real option" where
  "spec_average r =
     (case (Math r, Reading r, Writing r) of
        (Some m, Some x, Some w) \<Rightarrow> Some (round2 ((m + x + w) / 3))
      | _ \<Rightarrow> None)"

section \<open>Auxiliary notions\<close>

text \<open>A column update that leaves a present cell alone.\<close>

definition keeps_present ::
  "('r \<Rightarrow> 'a option) \<Rightarrow> (('a option \<Rightarrow> 'a option) \<Rightarrow> 'r \<Rightarrow> 'r) \<Rightarrow> bool" where
  "keeps_present sel upd = (\<forall>v r. sel r \<noteq> None \<longrightarrow> upd (fillna v) r = r)"

text \<open>The first mode of a column, when it has one.\<close>

definition first_mode :: "'a::linorder option list \<Rightarrow> 'a option" where
  "first_mode col = (case mode col of [] \<Rightarrow> None | m # _ \<Rightarrow> Some m)"

text \<open>What the fill does to one row of the frame \<open>df\<close>.\<close>

definition fill_row :: "row list \<Rightarrow> row \<Rightarrow> row" where
  "fill_row df r =
     r\<lparr>Math := fillna (mean (map Math df)) (Math r),
       Reading := fillna (mean (map Reading df)) (Reading r),
       Writing := fillna (mean (map Writing df)) (Writing r),
       Gender := fillna (first_mode (map Gender df)) (Gender r),
       Race_Ethnicity := fillna (first_mode (map Race_Ethnicity df)) (Race_Ethnicity r),
       Parental_Education := fillna (first_mode (map Parental_Education df)) (Parental_Education r),
       Lunch := fillna (first_mode (map Lunch df)) (Lunch r),
       Test_Prep := fillna (first_mode (map Test_Prep df)) (Test_Prep r)\<rparr>"

text \<open>
  A column the fill can complete: it has no missing cell, or it has a present one.
\<close>

definition column_ok :: "'a option list \<Rightarrow> bool" where
  "column_ok col = (\<not> isna_any col \<or> dropna col \<noteq> [])"

definition columns_ok :: "row list \<Rightarrow> bool" where
  "columns_ok df =
     (list_all (\<lambda>(c, sel, upd). column_ok (map sel df)) num_cols \<and>
      list_all (\<lambda>(c, sel, upd). column_ok (map sel df)) cat_cols)"

text \<open>A sorting routine that keeps the contract on every list of keys.\<close>

definition nargsort_ok :: "(real option list \<Rightarrow> nat list) \<Rightarrow> bool" where
  "nargsort_ok nargsort = (\<forall>keys. nargsort_desc keys (nargsort keys))"

text \<open>Rows in descending order of a key, missing keys last.\<close>

definition desc_by :: "('a \<Rightarrow> real option) \<Rightarrow> 'a list \<Rightarrow> bool" where
  "desc_by key xs = sorted_wrt (\<lambda>a b. key_ge (key a) (key b)) xs"

text \<open>Example rows.\<close>

definition student :: "string \<Rightarrow> real option \<Rightarrow> real option \<Rightarrow> real option \<Rightarrow> row" where
  "student g m x w =
     \<lparr>Gender = Some g, Race_Ethnicity = Some ''group B'',
      Parental_Education = Some ''some college'', Lunch = Some ''standard'',
      Test_Prep = Some ''none'', Math = m, Reading = x, Writing = w\<rparr>"

definition duplicate_pair :: "row list" where
  "duplicate_pair =
     [student ''female'' (Some 72) (Some 72) (Some 74),
      student ''female'' (Some 72) (Some 72) (Some 74)]"

definition one_missing :: "row list" where
  "one_missing =
     [student ''female'' None (Some 72) (Some 74),
      student ''male'' (Some 60) (Some 70) (Some 80)]"

section \<open>Performance bands\<close>

lemma pd_cut_Some: "pd_cut (Some x) =
    Some (if x \<le> 50 then Low else if x \<le> 70 then Fair else if x \<le> 85 then Good else Excellent)"
  by (simp add: pd_cut_def bins_def labels_def searchsorted_left_def)

lemma pd_cut_in_band: "(pd_cut (Some x) = Some b) = in_band b x"
  by (cases b) (simp_all add: pd_cut_Some)

text \<open>
  C1. \<^verbatim>\<open>pd.cut\<close> with the script's bins and labels gives every real Average exactly
  one band, the one whose interval \<open>(-\<infinity>,50]\<close>, \<open>(50,70]\<close>, \<open>(70,85]\<close>, \<open>(85,\<infinity>)\<close>
  holds it: a band is assigned if and only if the Average lies in its interval, the
  band exists and is unique, and this is the band of every row of the frame that has
  an Average. Average 85 is Good, 85.01 is Excellent, 50 is Low.
\<close>

theorem band_partition:
  "(\<forall>b. (pd_cut (Some x) = Some b) = in_band b x) \<and>
   (\<exists>!b. pd_cut (Some x) = Some b) \<and>
   (\<exists>!b. in_band b x) \<and>
   (\<forall>r\<in>set (derive df). \<forall>a b. Average r = Some a \<longrightarrow>
      (Performance_Band r = Some b) = in_band b a) \<and>
   pd_cut (Some 85) = Some Good \<and>
   pd_cut (Some 85.01) = Some Excellent \<and>
   pd_cut (Some 50) = Some Low"
proof -
  have one: "\<exists>!b. pd_cut (Some x) = Some b"
    by (simp add: pd_cut_Some)
  then have two: "\<exists>!b. in_band b x"
    by (simp add: pd_cut_in_band)
  have rows: "\<forall>r\<in>set (derive df). \<forall>a b. Average r = Some a \<longrightarrow>
      (Performance_Band r = Some b) = in_band b a"
    by (auto simp: derive_def derive_row_def pd_cut_in_band)
  have "pd_cut (Some 85) = Some Good" "pd_cut (Some 85.01) = Some Excellent"
    "pd_cut (Some 50) = Some Low"
    by (simp_all add: pd_cut_Some)
  with one two rows pd_cut_in_band [of x] show ?thesis
    by blast
qed

theorem band_partition_witness:
  "pd_cut (Some 72.33) = Some Good \<and> in_band Good 72.33 \<and> \<not> in_band Fair 72.33
   \<and> \<not> in_band Low 72.33 \<and> \<not> in_band Excellent 72.33
   \<and> map Average (derive [student ''female'' (Some 72) (Some 72) (Some 73)]) = [Some 72.33]
   \<and> map Performance_Band (derive [student ''female'' (Some 72) (Some 72) (Some 73)]) = [Some Good]"
proof -
  let ?r = "student ''female'' (Some 72) (Some 72) (Some 73)"
  have a: "Average (derive_row ?r) = Some 72.33"
    by (simp add: derive_row_def average_def mean_def round2_def rint_def student_def)
  have "derive_row ?r \<in> set (derive [?r])"
    by (simp add: derive_def)
  with band_partition [of "72.33" "[?r]"] a
  have "(Performance_Band (derive_row ?r) = Some Good) = in_band Good 72.33"
    and "(pd_cut (Some 72.33) = Some Good) = in_band Good 72.33"
    by blast+
  with a show ?thesis
    by (simp add: derive_def)
qed

section \<open>Filling: what the loops compute\<close>

lemma fillna_Some [simp]: "fillna v (Some x) = Some x"
  by (simp add: fillna_def)

lemma fillna_None [simp]: "fillna v None = v"
  by (simp add: fillna_def)

lemma isna_any_iff: "isna_any col = (None \<in> set col)"
  by (induction col) (auto simp: isna_any_def isna_def)

lemma set_dropna: "set (dropna col) = {v. Some v \<in> set col}"
  by (induction col rule: dropna.induct) auto

lemma dropna_Nil_iff: "(dropna col = []) = (\<forall>v. Some v \<notin> set col)"
  using set_dropna [of col] by auto

lemma keeps_present_cols:
  "keeps_present Math Math_update" "keeps_present Reading Reading_update"
  "keeps_present Writing Writing_update" "keeps_present Gender Gender_update"
  "keeps_present Race_Ethnicity Race_Ethnicity_update"
  "keeps_present Parental_Education Parental_Education_update"
  "keeps_present Lunch Lunch_update" "keeps_present Test_Prep Test_Prep_update"
  by (auto simp: keeps_present_def)

lemma map_upd_id:
  assumes "keeps_present sel upd" and "\<not> isna_any (map sel df)"
  shows "map (upd (fillna v)) df = df"
proof (rule map_idI)
  fix r assume "r \<in> set df"
  with assms(2) have "sel r \<noteq> None"
    by (metis isna_any_iff image_eqI set_map)
  with assms(1) show "upd (fillna v) r = r"
    by (simp add: keeps_present_def)
qed

lemma fill_num_map:
  "keeps_present sel upd \<Longrightarrow> fill_num sel upd df = map (upd (fillna (mean (map sel df)))) df"
  by (simp add: fill_num_def map_upd_id)

lemma fill_num_cols_map:
  "fill_num_cols df =
     map (\<lambda>r. r\<lparr>Math := fillna (mean (map Math df)) (Math r),
               Reading := fillna (mean (map Reading df)) (Reading r),
               Writing := fillna (mean (map Writing df)) (Writing r)\<rparr>) df"
  by (simp add: fill_num_cols_def num_cols_def fill_num_map keeps_present_cols comp_def)

lemma and_then_Inr:
  "(and_then r f = Inr y) = (\<exists>x. r = Inr x \<and> f x = Inr y)"
  by (cases r) (simp_all add: and_then_def)

lemma and_then_Inl:
  "(and_then r f = Inl e) = (r = Inl e \<or> (\<exists>x. r = Inr x \<and> f x = Inl e))"
  by (cases r) (simp_all add: and_then_def)

lemma fill_cat_Inr:
  assumes "keeps_present sel upd" and "fill_cat sel upd df = Inr df'"
  shows "df' = map (upd (fillna (first_mode (map sel df)))) df"
  using assms
  by (auto simp: fill_cat_def iloc0_def first_mode_def map_upd_id and_then_Inr
      split: if_splits list.splits)

lemma fill_cat_Inl:
  "(fill_cat sel upd df = Inl e) =
     (e = IndexError \<and> isna_any (map sel df) \<and> mode (map sel df) = [])"
  by (auto simp: fill_cat_def iloc0_def and_then_Inl split: list.splits)

lemma fill_cat_cols_Inr:
  assumes "fill_cat_cols df = Inr df'"
  shows "df' =
     map (\<lambda>r. r\<lparr>Gender := fillna (first_mode (map Gender df)) (Gender r),
       Race_Ethnicity := fillna (first_mode (map Race_Ethnicity df)) (Race_Ethnicity r),
       Parental_Education := fillna (first_mode (map Parental_Education df)) (Parental_Education r),
       Lunch := fillna (first_mode (map Lunch df)) (Lunch r),
       Test_Prep := fillna (first_mode (map Test_Prep df)) (Test_Prep r)\<rparr>) df"
proof -
  from assms obtain d1 d2 d3 d4 where
    1: "fill_cat Gender Gender_update df = Inr d1" and
    2: "fill_cat Race_Ethnicity Race_Ethnicity_update d1 = Inr d2" and
    3: "fill_cat Parental_Education Parental_Education_update d2 = Inr d3" and
    4: "fill_cat Lunch Lunch_update d3 = Inr d4" and
    5: "fill_cat Test_Prep Test_Prep_update d4 = Inr df'"
    by (auto simp: fill_cat_cols_def cat_cols_def and_then_Inr)
  note k = keeps_present_cols
  have d1: "d1 = map (Gender_update (fillna (first_mode (map Gender df)))) df"
    using fill_cat_Inr [OF k(4) 1] .
  have d2: "d2 = map (Race_Ethnicity_update (fillna (first_mode (map Race_Ethnicity df)))) d1"
    using fill_cat_Inr [OF k(5) 2] by (simp add: d1 comp_def)
  have d3: "d3 = map (Parental_Education_update (fillna (first_mode (map Parental_Education df)))) d2"
    using fill_cat_Inr [OF k(6) 3] by (simp add: d1 d2 comp_def)
  have d4: "d4 = map (Lunch_update (fillna (first_mode (map Lunch df)))) d3"
    using fill_cat_Inr [OF k(7) 4] by (simp add: d1 d2 d3 comp_def)
  have d5: "df' = map (Test_Prep_update (fillna (first_mode (map Test_Prep df)))) d4"
    using fill_cat_Inr [OF k(8) 5] by (simp add: d1 d2 d3 d4 comp_def)
  show ?thesis
    by (simp add: d5 d4 d3 d2 d1 comp_def)
qed

lemma fill_missing_Inr:
  assumes "fill_missing df = Inr df'"
  shows "df' = map (fill_row df) df"
proof -
  have "df' = map (\<lambda>r. r\<lparr>Gender := fillna (first_mode (map Gender (fill_num_cols df))) (Gender r),
       Race_Ethnicity := fillna (first_mode (map Race_Ethnicity (fill_num_cols df))) (Race_Ethnicity r),
       Parental_Education := fillna (first_mode (map Parental_Education (fill_num_cols df))) (Parental_Education r),
       Lunch := fillna (first_mode (map Lunch (fill_num_cols df))) (Lunch r),
       Test_Prep := fillna (first_mode (map Test_Prep (fill_num_cols df))) (Test_Prep r)\<rparr>) (fill_num_cols df)"
    using assms unfolding fill_missing_def by (rule fill_cat_cols_Inr)
  also have "\<dots> = map (fill_row df) df"
    by (simp add: fill_num_cols_map comp_def fill_row_def)
  finally show ?thesis .
qed

lemma fill_missing_Inl_IndexError:
  "fill_missing df = Inl e \<Longrightarrow> e = IndexError"
  by (auto simp: fill_missing_def fill_cat_cols_def cat_cols_def and_then_Inl fill_cat_Inl)

lemma max_count_Max: "max_count vs = Max (insert 0 (count_list vs ` set vs))"
  by (simp add: max_count_def Max.set_eq_fold [symmetric])

lemma count_le_max_count: "count_list vs u \<le> max_count vs"
proof (cases "u \<in> set vs")
  case True
  then show ?thesis by (simp add: max_count_Max)
next
  case False
  then show ?thesis by (simp add: count_list_0_iff)
qed

lemma max_count_attained:
  assumes "vs \<noteq> []"
  shows "\<exists>v\<in>set vs. count_list vs v = max_count vs"
proof -
  let ?S = "insert 0 (count_list vs ` set vs)"
  have "Max ?S \<in> ?S" by (intro Max_in) auto
  moreover from assms obtain w where w: "w \<in> set vs" by (cases vs) auto
  then have "0 < count_list vs w" using count_list_0_iff [of vs w] by simp
  with w have "0 < Max ?S" by (subst Max_gr_iff) auto
  ultimately show ?thesis by (auto simp: max_count_Max)
qed

lemma set_mode:
  "set (mode col) = {v \<in> set (dropna col). count_list (dropna col) v = max_count (dropna col)}"
  by (auto simp: mode_def Let_def)

lemma mode_Nil_iff: "(mode col = []) = (dropna col = [])"
proof
  assume "mode col = []"
  then have "set (mode col) = {}" by simp
  then show "dropna col = []"
    using max_count_attained [of "dropna col"] by (auto simp: set_mode)
next
  assume "dropna col = []"
  then show "mode col = []" by (simp add: mode_def)
qed

lemma first_mode_Some:
  assumes "first_mode col = Some m"
  shows "m \<in> set (dropna col)"
    and "count_list (dropna col) u \<le> count_list (dropna col) m"
    and "count_list (dropna col) u = count_list (dropna col) m \<Longrightarrow> u \<in> set (dropna col) \<Longrightarrow> m \<le> u"
proof -
  from assms obtain ms where ms: "mode col = m # ms"
    by (auto simp: first_mode_def split: list.splits)
  then have "m \<in> set (mode col)" by simp
  then show in_col: "m \<in> set (dropna col)"
    and cm: "count_list (dropna col) u \<le> count_list (dropna col) m"
    using count_le_max_count [of "dropna col" u] by (auto simp: set_mode)
  have "sorted (mode col)" by (simp add: mode_def Let_def)
  with ms have least: "\<forall>x\<in>set (mode col). m \<le> x" by auto
  assume "count_list (dropna col) u = count_list (dropna col) m" "u \<in> set (dropna col)"
  with \<open>m \<in> set (mode col)\<close> have "u \<in> set (mode col)" by (auto simp: set_mode)
  with least show "m \<le> u" by blast
qed

lemma first_mode_None_iff: "(first_mode col = None) = (dropna col = [])"
  by (simp add: first_mode_def mode_Nil_iff [symmetric] split: list.splits)

section \<open>Filling: completeness and the mode\<close>

lemma mean_None_iff: "(mean col = None) = (dropna col = [])"
  by (simp add: mean_def Let_def)

lemma fillna_not_None: "(fillna v x = None) = (x = None \<and> v = None)"
  by (cases x) simp_all

lemma and_then_Inr_left [simp]: "and_then (Inr x) f = f x"
  by (simp add: and_then_def)

lemma fill_cat_ok:
  assumes "keeps_present sel upd" and "column_ok (map sel df)"
  shows "fill_cat sel upd df = Inr (map (upd (fillna (first_mode (map sel df)))) df)"
proof (cases "fill_cat sel upd df")
  case (Inl e)
  with assms(2) show ?thesis
    by (simp add: fill_cat_Inl column_ok_def mode_Nil_iff)
next
  case (Inr df')
  with fill_cat_Inr [OF assms(1) Inr] show ?thesis by simp
qed

lemma fill_cat_cols_ok:
  assumes "list_all (\<lambda>(c, sel, upd). column_ok (map sel df)) cat_cols"
  shows "\<exists>df'. fill_cat_cols df = Inr df'"
  using assms
  by (simp add: fill_cat_cols_def cat_cols_def fill_cat_ok keeps_present_cols comp_def)

lemma fill_missing_ok:
  assumes "columns_ok df"
  shows "fill_missing df = Inr (map (fill_row df) df)"
proof -
  have "list_all (\<lambda>(c, sel, upd). column_ok (map sel (fill_num_cols df))) cat_cols"
    using assms by (simp add: columns_ok_def cat_cols_def fill_num_cols_map comp_def)
  then obtain df' where "fill_missing df = Inr df'"
    unfolding fill_missing_def using fill_cat_cols_ok by blast
  with fill_missing_Inr [OF this] show ?thesis by simp
qed

lemma fillna_mean_present:
  assumes "column_ok (map sel df)" and "r \<in> set df"
  shows "\<not> isna (fillna (mean (map sel df)) (sel r))"
proof (cases "sel r")
  case None
  with assms(2) have "isna_any (map sel df)"
    by (metis isna_any_iff image_eqI set_map)
  with assms(1) show ?thesis
    by (simp add: column_ok_def isna_def fillna_not_None mean_None_iff)
next
  case (Some x)
  then show ?thesis by (simp add: isna_def)
qed

lemma fillna_mode_present:
  assumes "column_ok (map sel df)" and "r \<in> set df"
  shows "\<not> isna (fillna (first_mode (map sel df)) (sel r))"
proof (cases "sel r")
  case None
  with assms(2) have "isna_any (map sel df)"
    by (metis isna_any_iff image_eqI set_map)
  with assms(1) show ?thesis
    by (simp add: column_ok_def isna_def fillna_not_None first_mode_None_iff)
next
  case (Some x)
  then show ?thesis by (simp add: isna_def)
qed

lemma fill_row_complete:
  assumes "columns_ok df" and "r \<in> set df"
  shows "row_complete (fill_row df r)"
proof -
  from assms(1) have
    "column_ok (map Math df)" "column_ok (map Reading df)" "column_ok (map Writing df)"
    "column_ok (map Gender df)" "column_ok (map Race_Ethnicity df)"
    "column_ok (map Parental_Education df)" "column_ok (map Lunch df)"
    "column_ok (map Test_Prep df)"
    by (simp_all add: columns_ok_def num_cols_def cat_cols_def)
  then show ?thesis
    using assms(2) by (simp add: row_complete_def fill_row_def fillna_mean_present fillna_mode_present)
qed

lemma fill_missing_complete:
  assumes "columns_ok df"
  shows "\<exists>df'. fill_missing df = Inr df' \<and> list_all row_complete df'"
  using assms by (simp add: fill_missing_ok list_all_iff fill_row_complete)

text \<open>
  C2. The fill leaves a score column that is entirely missing as it is, and stops with
  \<^verbatim>\<open>IndexError\<close> on a categorical column that is entirely missing.
\<close>

theorem fill_missing_empty_column:
  "fill_missing [student ''female'' None (Some 60) (Some 80)]
     = Inr [student ''female'' None (Some 60) (Some 80)]
   \<and> \<not> row_complete (student ''female'' None (Some 60) (Some 80))
   \<and> fill_missing [(student ''female'' (Some 72) (Some 60) (Some 80))\<lparr>Lunch := None\<rparr>]
     = Inl IndexError"
  by (simp add: fill_missing_def fill_num_cols_def fill_cat_cols_def num_cols_def cat_cols_def
      fill_num_def fill_cat_def isna_any_def isna_def mean_def mode_def iloc0_def and_then_def
      row_complete_def student_def)

lemma sel_upd_cat:
  assumes "(c, sel, upd) \<in> set cat_cols"
  shows "sel (upd f r) = f (sel r)" and "keeps_present sel upd"
  using assms by (auto simp: cat_cols_def keeps_present_cols)

text \<open>
  C5 as amended. In a categorical column with a missing cell and a present one, every
  missing cell becomes one value \<open>m\<close> and the present cells stay; \<open>m\<close> is a value of
  the column, no value occurs more often, and among the values that occur as often
  \<open>m\<close> is the least in the order of the values (not the one seen first).
\<close>

theorem mode_fill_least:
  assumes "(c, sel, upd) \<in> set cat_cols"
    and "isna_any (map sel df)"
    and "dropna (map sel df) \<noteq> []"
  shows "\<exists>m. fill_cat sel upd df = Inr (map (upd (fillna (Some m))) df)
      \<and> map sel (map (upd (fillna (Some m))) df) = map (fillna (Some m)) (map sel df)
      \<and> m \<in> set (dropna (map sel df))
      \<and> (\<forall>u. count_list (dropna (map sel df)) u \<le> count_list (dropna (map sel df)) m)
      \<and> (\<forall>u. count_list (dropna (map sel df)) u = count_list (dropna (map sel df)) m
            \<longrightarrow> m \<le> u)"
proof -
  let ?vs = "dropna (map sel df)"
  from assms(3) obtain m where m: "first_mode (map sel df) = Some m"
    using first_mode_None_iff [of "map sel df"] by (cases "first_mode (map sel df)") auto
  have "column_ok (map sel df)"
    using assms(3) by (simp add: column_ok_def)
  then have 1: "fill_cat sel upd df = Inr (map (upd (fillna (Some m))) df)"
    using fill_cat_ok [OF sel_upd_cat(2) [OF assms(1)]] m by simp
  have 2: "map sel (map (upd (fillna (Some m))) df) = map (fillna (Some m)) (map sel df)"
    by (simp add: sel_upd_cat(1) [OF assms(1)])
  have 3: "m \<in> set ?vs" and 4: "\<And>u. count_list ?vs u \<le> count_list ?vs m"
    using first_mode_Some(1,2) [OF m] by blast+
  have 5: "m \<le> u" if eq: "count_list ?vs u = count_list ?vs m" for u
  proof -
    from 3 have "count_list ?vs m \<noteq> 0" by (simp add: count_list_0_iff)
    with eq have "u \<in> set ?vs" using count_list_0_iff [of ?vs u] by simp
    with first_mode_Some(3) [OF m eq] show ?thesis .
  qed
  from 1 2 3 4 5 show ?thesis by blast
qed

theorem mode_fill_least_witness:
  "fill_cat Gender Gender_update
     [student ''male'' None None None, student ''female'' None None None,
      (student ''x'' None None None)\<lparr>Gender := None\<rparr>]
   = Inr [student ''male'' None None None, student ''female'' None None None,
          student ''female'' None None None]"
proof -
  let ?df = "[student ''male'' None None None, student ''female'' None None None,
      (student ''x'' None None None)\<lparr>Gender := None\<rparr>]"
  have col: "map Gender ?df = [Some ''male'', Some ''female'', None]"
    by (simp add: student_def)
  have "(''Gender'', Gender, Gender_update) \<in> set cat_cols"
    by (simp add: cat_cols_def)
  from mode_fill_least [OF this, of ?df] obtain m where
    m: "fill_cat Gender Gender_update ?df = Inr (map (Gender_update (fillna (Some m))) ?df)"
    and least: "\<forall>u. count_list [''male'', ''female''] u = count_list [''male'', ''female''] m \<longrightarrow> m \<le> u"
    and mem: "m \<in> set [''male'', ''female'']"
    unfolding col by (auto simp: isna_any_def isna_def)
  from least [rule_format, of "''female''"] mem have "m = ''female''"
    by auto
  with m show ?thesis by (simp add: student_def)
qed

text \<open>
  C5 as stated fails: in the column \<^verbatim>\<open>['male', 'female', NaN]\<close> both values occur
  once and \<^verbatim>\<open>'male'\<close> is seen first, but the fill writes \<^verbatim>\<open>'female'\<close>.
\<close>

theorem mode_first_seen_counterexample:
  "first_seen_mode (map Gender
     [student ''male'' (Some 1) (Some 2) (Some 3), student ''female'' (Some 1) (Some 2) (Some 3),
      (student ''x'' (Some 1) (Some 2) (Some 3))\<lparr>Gender := None\<rparr>]) = Some ''male''
   \<and> fill_missing
     [student ''male'' (Some 1) (Some 2) (Some 3), student ''female'' (Some 1) (Some 2) (Some 3),
      (student ''x'' (Some 1) (Some 2) (Some 3))\<lparr>Gender := None\<rparr>]
   = Inr [student ''male'' (Some 1) (Some 2) (Some 3), student ''female'' (Some 1) (Some 2) (Some 3),
          student ''female'' (Some 1) (Some 2) (Some 3)]"
  by (simp add: first_seen_mode_def max_count_def fill_missing_def fill_num_cols_def
      fill_cat_cols_def num_cols_def cat_cols_def fill_num_def fill_cat_def isna_any_def isna_def
      mode_def iloc0_def and_then_def student_def fillna_def)

section \<open>Sorted views\<close>

lemma key_ge_total: "key_ge a b \<or> key_ge b a"
  by (cases a; cases b) auto

lemma key_ge_trans: "key_ge a b \<Longrightarrow> key_ge b c \<Longrightarrow> key_ge a c"
  by (cases a; cases b; cases c) auto

lemma mset_insort_desc: "mset (insort_desc key x ys) = add_mset x (mset ys)"
  by (induction ys) auto

lemma mset_stable_sort_desc: "mset (stable_sort_desc key xs) = mset xs"
  by (induction xs) (auto simp: stable_sort_desc_def mset_insort_desc)

lemma set_insort_desc: "set (insort_desc key x ys) = insert x (set ys)"
  using mset_insort_desc [of key x ys, THEN arg_cong, of set_mset] by simp

lemma desc_by_insort_desc:
  "desc_by key ys \<Longrightarrow> desc_by key (insort_desc key x ys)"
proof (induction ys)
  case Nil
  then show ?case by (simp add: desc_by_def)
next
  case (Cons y ys)
  show ?case
  proof (cases "key_ge (key x) (key y)")
    case True
    with Cons.prems show ?thesis
      by (auto simp: desc_by_def intro: key_ge_trans)
  next
    case False
    then have "key_ge (key y) (key x)" using key_ge_total by blast
    with False Cons show ?thesis
      by (auto simp: desc_by_def set_insort_desc)
  qed
qed

lemma desc_by_stable_sort_desc: "desc_by key (stable_sort_desc key xs)"
proof (induction xs)
  case Nil
  then show ?case by (simp add: stable_sort_desc_def desc_by_def)
next
  case (Cons x xs)
  then show ?case
    using desc_by_insort_desc [of key "stable_sort_desc key xs" x]
    by (simp add: stable_sort_desc_def)
qed

lemma nargsort_desc_of_perm:
  assumes "mset idx = mset [0..<length keys]" and "desc_by (\<lambda>i. keys ! i) idx"
  shows "nargsort_desc keys idx"
proof -
  have "sort idx = [0..<length keys]"
    using assms(1) by (intro properties_for_sort) simp_all
  with assms(2) show ?thesis
    by (simp add: nargsort_desc_def desc_by_def)
qed

lemma stable_nargsort_ok: "nargsort_ok stable_nargsort"
  unfolding nargsort_ok_def stable_nargsort_def
  by (intro allI nargsort_desc_of_perm) (simp_all add: mset_stable_sort_desc desc_by_stable_sort_desc)

lemma nargsort_desc_mset:
  assumes "nargsort_desc keys idx"
  shows "mset idx = mset [0..<length keys]"
proof -
  have "mset idx = mset (sort idx)" by simp
  also have "\<dots> = mset [0..<length keys]"
    using assms by (simp only: nargsort_desc_def)
  finally show ?thesis .
qed

lemma mset_take_rows:
  assumes "nargsort_desc (map key df) idx"
  shows "mset (take_rows df idx) = mset df"
proof -
  have "mset (take_rows df idx) = image_mset (\<lambda>i. df ! i) (mset idx)"
    by (simp add: take_rows_def)
  also have "\<dots> = image_mset (\<lambda>i. df ! i) (mset [0..<length df])"
    using nargsort_desc_mset [OF assms] by simp
  also have "\<dots> = mset (map (\<lambda>i. df ! i) [0..<length df])"
    by simp
  also have "\<dots> = mset df"
    by (simp add: map_nth)
  finally show ?thesis .
qed

lemma desc_by_take_rows:
  assumes "nargsort_desc (map key df) idx"
  shows "desc_by key (take_rows df idx)"
proof -
  have "set idx = {0..<length df}"
    using nargsort_desc_mset [OF assms, THEN arg_cong, of set_mset] by simp
  then have in_range: "\<And>i. i \<in> set idx \<Longrightarrow> i < length df" by simp
  from assms have "sorted_wrt (\<lambda>i j. key_ge (map key df ! i) (map key df ! j)) idx"
    by (simp add: nargsort_desc_def)
  then have "sorted_wrt (\<lambda>i j. key_ge (key (df ! i)) (key (df ! j))) idx"
    by (rule sorted_wrt_mono_rel [rotated]) (simp add: in_range)
  then show ?thesis
    by (simp add: desc_by_def take_rows_def sorted_wrt_map)
qed

lemma sort_values_desc_props:
  assumes "nargsort_ok nargsort"
  shows "mset (sort_values_desc nargsort key df) = mset df"
    and "desc_by key (sort_values_desc nargsort key df)"
proof -
  from assms have "nargsort_desc (map key df) (nargsort (map key df))"
    by (simp add: nargsort_ok_def)
  then show "mset (sort_values_desc nargsort key df) = mset df"
    and "desc_by key (sort_values_desc nargsort key df)"
    unfolding sort_values_desc_def by (rule mset_take_rows, rule desc_by_take_rows)
qed

section \<open>Band counts\<close>

lemma filter_same_key:
  assumes "distinct (map f ys)" and "k \<in> set ys"
  shows "filter (\<lambda>x. f k = f x) ys = [k]"
  using assms
proof (induction ys)
  case Nil
  then show ?case by simp
next
  case (Cons y ys)
  show ?case
  proof (cases "k = y")
    case True
    with Cons.prems(1) have "filter (\<lambda>x. f y = f x) ys = []"
      by (auto simp: filter_empty_conv)
    with True show ?thesis by simp
  next
    case False
    with Cons.prems have "k \<in> set ys" "f k \<noteq> f y" "distinct (map f ys)"
      by (auto simp: image_iff)
    with Cons.IH show ?thesis by simp
  qed
qed

lemma sort_key_unique:
  assumes "mset xs = mset ys" and "distinct (map f ys)" and "sorted (map f ys)"
  shows "sort_key f xs = ys"
proof (rule properties_for_sort_key)
  show "mset ys = mset xs" using assms(1) by simp
  show "sorted (map f ys)" by fact
  fix k assume k: "k \<in> set ys"
  have "mset (filter (\<lambda>x. f k = f x) xs) = mset (filter (\<lambda>x. f k = f x) ys)"
    by (simp add: assms(1))
  also have "\<dots> = {#k#}"
    by (simp add: filter_same_key [OF assms(2) k])
  finally have "filter (\<lambda>x. f k = f x) xs = [k]"
    by (rule mset_single_iff [THEN iffD1])
  then show "filter (\<lambda>x. f k = f x) ys = filter (\<lambda>x. f k = f x) xs"
    by (simp add: filter_same_key [OF assms(2) k])
qed

lemma band_counts_eq:
  assumes "nargsort_ok nargsort"
  shows "band_counts nargsort df =
     map (\<lambda>b. (b, count_list (dropna (map Performance_Band df)) b)) labels"
proof -
  let ?base = "map (\<lambda>b. (b, count_list (dropna (map Performance_Band df)) b)) labels"
  have "mset (value_counts nargsort (map Performance_Band df)) = mset ?base"
    unfolding value_counts_def by (rule sort_values_desc_props(1) [OF assms])
  moreover have "distinct (map (\<lambda>(b, n). code b) ?base)" "sorted (map (\<lambda>(b, n). code b) ?base)"
    by (simp_all add: labels_def)
  ultimately show ?thesis
    unfolding band_counts_def sort_index_def by (rule sort_key_unique)
qed

lemma count_list_bands:
  "count_list bs Low + count_list bs Fair + count_list bs Good + count_list bs Excellent
     = length bs"
proof (induction bs)
  case Nil
  then show ?case by simp
next
  case (Cons b bs)
  then show ?case by (cases b) simp_all
qed

lemma length_dropna:
  "length (dropna (map f df)) = length (filter (\<lambda>r. f r \<noteq> None) df)"
proof (induction df)
  case Nil
  then show ?case by simp
next
  case (Cons r df)
  then show ?case by (cases "f r") auto
qed

text \<open>
  In the model, where every Average present is a real, the counts sum to the row count
  whenever the fill completes every column.
\<close>

lemma band_counts_sum_after_fill:
  assumes "columns_ok df0" and "nargsort_ok nargsort"
  shows "\<exists>df1. fill_missing df0 = Inr df1
     \<and> sum_list (map snd (band_counts nargsort (derive df1))) = length df0"
proof -
  from fill_missing_complete [OF assms(1)] obtain df1 where
    f: "fill_missing df0 = Inr df1" and c: "list_all row_complete df1"
    by blast
  let ?df = "derive df1"
  let ?bs = "dropna (map Performance_Band ?df)"
  have "Performance_Band r \<noteq> None" if "r \<in> set ?df" for r
  proof -
    from that c obtain r0 where "r = derive_row r0" "row_complete r0"
      by (auto simp: derive_def list_all_iff)
    then show ?thesis
      by (auto simp: derive_row_def average_def mean_def row_complete_def isna_def pd_cut_Some)
  qed
  then have "filter (\<lambda>r. Performance_Band r \<noteq> None) ?df = ?df"
    by (simp add: filter_id_conv)
  then have "length ?bs = length ?df"
    by (simp add: length_dropna)
  moreover have "sum_list (map snd (band_counts nargsort ?df)) = length ?bs"
    using count_list_bands [of ?bs] by (simp add: band_counts_eq [OF assms(2)] labels_def)
  moreover have "length ?df = length df0"
    using fill_missing_Inr [OF f] by (simp add: derive_def)
  ultimately show ?thesis
    using f by simp
qed

text \<open>
  C6. On a one-row table whose three scores are missing the fill leaves the row as it
  is, the Average and the band of the row are missing, and \<^verbatim>\<open>band_counts\<close> has the
  four bands in their fixed order, each with count zero: the counts sum to 0, the table
  has one row.
\<close>

theorem band_counts_all_scores_missing:
  "fill_missing [student ''female'' None None None] = Inr [student ''female'' None None None]
   \<and> band_counts stable_nargsort (derive [student ''female'' None None None])
       = [(Low, 0), (Fair, 0), (Good, 0), (Excellent, 0)]
   \<and> sum_list (map snd (band_counts stable_nargsort (derive [student ''female'' None None None])))
       \<noteq> length [student ''female'' None None None]"
proof -
  have "fill_missing [student ''female'' None None None] = Inr [student ''female'' None None None]"
    by (simp add: fill_missing_def fill_num_cols_def fill_cat_cols_def num_cols_def cat_cols_def
      fill_num_def fill_cat_def isna_any_def isna_def mean_def student_def)
  moreover have "derive [student ''female'' None None None]
      = [\<lparr>Row = student ''female'' None None None, Average = None, Performance_Band = None\<rparr>]"
    by (simp add: derive_def derive_row_def average_def mean_def student_def pd_cut_def)
  ultimately show ?thesis
    by (simp add: band_counts_eq [OF stable_nargsort_ok] labels_def)
qed

section \<open>The Average and the band derivation\<close>

lemma mean3:
  "mean [Some m, Some x, Some w] = Some ((m + x + w) / 3)"
  by (simp add: mean_def add.assoc)

lemma average_present:
  assumes "r \<in> set (derive df1)"
    and "Math (Row r) = Some m" and "Reading (Row r) = Some x" and "Writing (Row r) = Some w"
  shows "Average r = Some (round2 ((m + x + w) / 3))" and "Average r = spec_average (Row r)"
  using assms by (auto simp: derive_def derive_row_def average_def mean3 spec_average_def)

text \<open>
  In the model's exact arithmetic every row has the Average of the specification's
  formula whenever the fill completes every column.
\<close>

lemma average_formula_after_fill:
  assumes "columns_ok df0"
  shows "\<exists>df1. fill_missing df0 = Inr df1
     \<and> (\<forall>r\<in>set (derive df1). Average r = spec_average (Row r) \<and> Average r \<noteq> None)"
proof -
  from fill_missing_complete [OF assms] obtain df1 where
    df1: "fill_missing df0 = Inr df1" and c: "list_all row_complete df1"
    by blast
  have "Average r = spec_average (Row r) \<and> Average r \<noteq> None" if r: "r \<in> set (derive df1)" for r
  proof -
    from r c have "row_complete (Row r)"
      by (auto simp: derive_def derive_row_def list_all_iff)
    then obtain m x w where
      "Math (Row r) = Some m" "Reading (Row r) = Some x" "Writing (Row r) = Some w"
      by (auto simp: row_complete_def isna_def)
    from average_present [OF r this] show ?thesis by simp
  qed
  with df1 show ?thesis by blast
qed

text \<open>
  C3. On a one-row table with Math missing, reading 60 and writing 80 the fill leaves
  Math missing (the column has no value to take a mean of), and the Average of the row
  is the mean of the two scores present, 70, where the formula of the specification,
  which needs the three filled scores, has no value.
\<close>

theorem average_with_missing_math:
  "fill_missing [student ''female'' None (Some 60) (Some 80)]
     = Inr [student ''female'' None (Some 60) (Some 80)]
   \<and> map Average (derive [student ''female'' None (Some 60) (Some 80)]) = [Some 70]
   \<and> map spec_average [student ''female'' None (Some 60) (Some 80)] = [None]"
  by (simp add: fill_missing_def fill_num_cols_def fill_cat_cols_def num_cols_def cat_cols_def
      fill_num_def fill_cat_def isna_any_def isna_def mean_def student_def
      derive_def derive_row_def average_def round2_def rint_def spec_average_def)

lemma build_Inr:
  assumes "build nargsort df0 = Inr wb"
  shows "\<exists>df1. fill_missing df0 = Inr df1
     \<and> Cleaned_Data wb = dataframe_to_rows (derive df1)
     \<and> (\<exists>rest. Summary wb =
           data_quality_block (duplicate_count df0) (missing_counts nargsort df0) @ rest)"
  using assms by (auto simp: build_def Let_def and_then_Inr)

lemma add_band_derive: "add_band df = Inr (derive df)"
  by (simp add: add_band_def cut_checks_def bins_def labels_def)

text \<open>
  C8 as amended. Deriving the band does not fail when an Average is missing: on every
  frame lines 56 to 60 return normally, with one row per row, and a row whose Average
  is missing has a missing band, assigned without an error.
\<close>

theorem band_derivation_silent:
  "\<exists>df. add_band df1 = Inr df \<and> length df = length df1
     \<and> (\<forall>i<length df1. average (df1 ! i) = None \<longrightarrow>
          Average (df ! i) = None \<and> Performance_Band (df ! i) = None)"
proof -
  have "Average (derive df1 ! i) = None \<and> Performance_Band (derive df1 ! i) = None"
    if "i < length df1" "average (df1 ! i) = None" for i
    using that by (simp add: derive_def derive_row_def pd_cut_def)
  then show ?thesis
    by (simp add: add_band_derive derive_def)
qed

theorem band_derivation_silent_witness:
  "average (student ''male'' None None None) = None
   \<and> map_sum id (map Performance_Band) (add_band [student ''male'' None None None]) = Inr [None]"
proof -
  let ?df1 = "[student ''male'' None None None]"
  have a: "average (student ''male'' None None None) = None"
    by (simp add: average_def mean_def student_def)
  from band_derivation_silent [of ?df1] obtain df where
    df: "add_band ?df1 = Inr df" and len: "length df = length ?df1" and
    b: "\<forall>i<length ?df1. average (?df1 ! i) = None \<longrightarrow> Performance_Band (df ! i) = None"
    by blast
  from b [rule_format, of 0] a have "Performance_Band (df ! 0) = None"
    by simp
  moreover from len obtain r where "df = [r]"
    by (cases df) auto
  ultimately have "map Performance_Band df = [None]"
    by simp
  with a df show ?thesis
    by simp
qed

text \<open>
  C8 as stated fails: on a one-row table with the three scores missing the fill leaves
  the row as it is, the Average is missing when the band is computed, and lines 56 to
  60 return the row with a missing band instead of raising.
\<close>

theorem missing_band_counterexample:
  "fill_missing [student ''female'' None None None] = Inr [student ''female'' None None None]
   \<and> add_band [student ''female'' None None None]
     = Inr [\<lparr>Row = student ''female'' None None None, Average = None, Performance_Band = None\<rparr>]"
proof -
  have "fill_missing [student ''female'' None None None] = Inr [student ''female'' None None None]"
    by (simp add: fill_missing_def fill_num_cols_def fill_cat_cols_def num_cols_def cat_cols_def
      fill_num_def fill_cat_def isna_any_def isna_def mean_def student_def)
  moreover have "derive [student ''female'' None None None]
     = [\<lparr>Row = student ''female'' None None None, Average = None, Performance_Band = None\<rparr>]"
    by (simp add: derive_def derive_row_def average_def mean_def student_def pd_cut_def)
  ultimately show ?thesis
    by (simp add: add_band_derive)
qed

section \<open>Rows and the data quality block\<close>

lemma fill_row_id:
  assumes "row_complete r"
  shows "fill_row df r = r"
proof -
  from assms obtain g e p l t m x w where
    "Gender r = Some g" "Race_Ethnicity r = Some e" "Parental_Education r = Some p"
    "Lunch r = Some l" "Test_Prep r = Some t" "Math r = Some m" "Reading r = Some x"
    "Writing r = Some w"
    by (auto simp: row_complete_def isna_def)
  then show ?thesis
    by (simp add: fill_row_def)
qed

lemma length_fill_missing: "fill_missing df0 = Inr df1 \<Longrightarrow> length df1 = length df0"
  by (drule fill_missing_Inr) simp

text \<open>
  C9. When the script reaches the workbook, the fill, the derivation and the
  \<^verbatim>\<open>Cleaned_Data\<close> sheet have one row per row of the loaded table, in the same order:
  the sheet is the header and then, for row \<open>i\<close> of the table, the cells of that row
  after the fill with its two derived cells. A row that had no missing cell appears
  with its loaded cells, and two equal rows of the table give two equal rows of the
  sheet: duplicates are counted in \<^verbatim>\<open>duplicate_count\<close> and kept.
\<close>

theorem rows_preserved:
  assumes "build nargsort df0 = Inr wb"
  shows "\<exists>df1. fill_missing df0 = Inr df1
     \<and> length df1 = length df0
     \<and> length (derive df1) = length df0
     \<and> Cleaned_Data wb = map Str columns # map row_values (derive df1)
     \<and> length (Cleaned_Data wb) = Suc (length df0)
     \<and> (\<forall>i<length df0.
          Cleaned_Data wb ! Suc i = row_values (derive_row (fill_row df0 (df0 ! i)))
        \<and> (row_complete (df0 ! i) \<longrightarrow>
             Cleaned_Data wb ! Suc i = row_values (derive_row (df0 ! i)))
        \<and> (\<forall>j<length df0. df0 ! i = df0 ! j \<longrightarrow>
             Cleaned_Data wb ! Suc i = Cleaned_Data wb ! Suc j))"
proof -
  from build_Inr [OF assms] obtain df1 where
    f: "fill_missing df0 = Inr df1" and c: "Cleaned_Data wb = dataframe_to_rows (derive df1)"
    by blast
  have df1: "df1 = map (fill_row df0) df0"
    by (rule fill_missing_Inr [OF f])
  have len: "length df1 = length df0" "length (derive df1) = length df0"
    by (simp_all add: df1 derive_def)
  have sheet: "Cleaned_Data wb = map Str columns # map row_values (derive df1)"
    by (simp add: c dataframe_to_rows_def)
  have row: "Cleaned_Data wb ! Suc i = row_values (derive_row (fill_row df0 (df0 ! i)))"
    if "i < length df0" for i
    using that by (simp add: sheet df1 derive_def)
  have same: "Cleaned_Data wb ! Suc i = row_values (derive_row (df0 ! i))"
    if "i < length df0" "row_complete (df0 ! i)" for i
    using that by (simp only: row fill_row_id)
  have dup: "Cleaned_Data wb ! Suc i = Cleaned_Data wb ! Suc j"
    if "i < length df0" "j < length df0" "df0 ! i = df0 ! j" for i j
    using that by (simp only: row)
  have "length (Cleaned_Data wb) = Suc (length df0)"
    by (simp only: sheet len length_Cons length_map)
  with f len sheet row same dup show ?thesis
    by blast
qed

lemma fill_missing_duplicate_pair: "fill_missing duplicate_pair = Inr duplicate_pair"
  by (simp add: duplicate_pair_def fill_missing_def fill_num_cols_def fill_cat_cols_def
      num_cols_def cat_cols_def fill_num_def fill_cat_def isna_any_def isna_def student_def)

theorem rows_preserved_witness:
  "duplicate_count duplicate_pair = 1
   \<and> length (Cleaned_Data (projr (build stable_nargsort duplicate_pair))) = 3
   \<and> Cleaned_Data (projr (build stable_nargsort duplicate_pair)) ! 1
     = Cleaned_Data (projr (build stable_nargsort duplicate_pair)) ! 2"
proof -
  obtain wb where wb: "build stable_nargsort duplicate_pair = Inr wb"
    by (simp add: build_def Let_def fill_missing_duplicate_pair)
  have "duplicate_pair ! 0 = duplicate_pair ! 1" "length duplicate_pair = 2"
    by (simp_all add: duplicate_pair_def)
  with rows_preserved [OF wb]
  have "length (Cleaned_Data wb) = 3 \<and> Cleaned_Data wb ! 1 = Cleaned_Data wb ! 2"
    by (auto simp: numeral_2_eq_2 numeral_3_eq_3)
  moreover have "duplicate_count duplicate_pair = 1"
    by (simp add: duplicate_count_def duplicate_pair_def)
  ultimately show ?thesis
    by (simp add: wb)
qed

lemma isna_count_0:
  assumes "\<And>r. r \<in> set df \<Longrightarrow> \<not> isna (sel r)"
  shows "isna_count (map sel df) = 0"
  using assms by (simp add: isna_count_def filter_empty_conv)

lemma isna_sum_complete:
  assumes "list_all row_complete df"
  shows "list_all (\<lambda>(c, v). v = 0) (isna_sum df)"
proof -
  from assms have "\<And>r. r \<in> set df \<Longrightarrow> row_complete r"
    by (simp add: list_all_iff)
  then show ?thesis
    unfolding isna_sum_def by (simp add: isna_count_0 row_complete_def)
qed

text \<open>
  C10. The eight rows of the \<^verbatim>\<open>Summary\<close> sheet under the heading
  \<^verbatim>\<open>['Column', 'Missing']\<close> (rows 7 to 14) are the entries of \<^verbatim>\<open>missing_counts\<close>,
  and these are, in some order, the per-column counts of missing cells of the table as
  loaded. The fill does not enter: the counts reported are those of the loaded table
  also when, after the fill, no column has a missing cell.
\<close>

theorem missing_counts_before_fill:
  assumes "build nargsort df0 = Inr wb" and "nargsort_ok nargsort"
  shows "take 8 (drop 6 (Summary wb))
       = map (\<lambda>(c, v). [Str c, Num (real v)]) (missing_counts nargsort df0)
     \<and> mset (missing_counts nargsort df0) = mset (isna_sum df0)
     \<and> (\<exists>df1. fill_missing df0 = Inr df1
          \<and> (columns_ok df0 \<longrightarrow> list_all (\<lambda>(c, v). v = 0) (isna_sum df1)))"
proof -
  have m: "mset (missing_counts nargsort df0) = mset (isna_sum df0)"
    unfolding missing_counts_def by (rule sort_values_desc_props(1) [OF assms(2)])
  then have "length (missing_counts nargsort df0) = length (isna_sum df0)"
    by (rule mset_eq_length)
  then have len: "length (missing_counts nargsort df0) = 8"
    by (simp add: isna_sum_def)
  from build_Inr [OF assms(1)] obtain df1 rest where
    f: "fill_missing df0 = Inr df1" and
    "Summary wb = data_quality_block (duplicate_count df0) (missing_counts nargsort df0) @ rest"
    by blast
  then have s: "take 8 (drop 6 (Summary wb))
       = map (\<lambda>(c, v). [Str c, Num (real v)]) (missing_counts nargsort df0)"
    by (simp add: data_quality_block_def write_title_def len)
  have "list_all (\<lambda>(c, v). v = 0) (isna_sum df1)" if "columns_ok df0"
    using fill_missing_complete [OF that] f by (auto intro: isna_sum_complete)
  with m s f show ?thesis by blast
qed

lemma fill_missing_one_missing:
  "fill_missing one_missing
     = Inr [student ''female'' (Some 60) (Some 72) (Some 74),
            student ''male'' (Some 60) (Some 70) (Some 80)]"
  by (simp add: one_missing_def fill_missing_def fill_num_cols_def fill_cat_cols_def
      num_cols_def cat_cols_def fill_num_def fill_cat_def isna_any_def isna_def mean_def
      student_def fillna_def)

theorem missing_counts_before_fill_witness:
  "take 8 (drop 6 (Summary (projr (build stable_nargsort one_missing))))
     = [[Str ''Math'', Num 1], [Str ''Gender'', Num 0], [Str ''Race_Ethnicity'', Num 0],
        [Str ''Parental_Education'', Num 0], [Str ''Lunch'', Num 0], [Str ''Test_Prep'', Num 0],
        [Str ''Reading'', Num 0], [Str ''Writing'', Num 0]]
   \<and> NaN \<notin> set (concat (Cleaned_Data (projr (build stable_nargsort one_missing))))"
proof -
  obtain wb where wb: "build stable_nargsort one_missing = Inr wb"
    by (simp add: build_def Let_def fill_missing_one_missing)
  have "isna_sum one_missing =
      [(''Gender'', 0), (''Race_Ethnicity'', 0), (''Parental_Education'', 0), (''Lunch'', 0),
       (''Test_Prep'', 0), (''Math'', 1), (''Reading'', 0), (''Writing'', 0)]"
    by (simp add: isna_sum_def one_missing_def isna_count_def isna_def student_def)
  then have "missing_counts stable_nargsort one_missing =
      [(''Math'', 1), (''Gender'', 0), (''Race_Ethnicity'', 0), (''Parental_Education'', 0),
       (''Lunch'', 0), (''Test_Prep'', 0), (''Reading'', 0), (''Writing'', 0)]"
    by (simp add: missing_counts_def sort_values_desc_def take_rows_def stable_nargsort_def
        stable_sort_desc_def)
  with missing_counts_before_fill [OF wb stable_nargsort_ok, THEN conjunct1]
  have 1: "take 8 (drop 6 (Summary wb))
     = [[Str ''Math'', Num 1], [Str ''Gender'', Num 0], [Str ''Race_Ethnicity'', Num 0],
        [Str ''Parental_Education'', Num 0], [Str ''Lunch'', Num 0], [Str ''Test_Prep'', Num 0],
        [Str ''Reading'', Num 0], [Str ''Writing'', Num 0]]"
    by simp
  from build_Inr [OF wb] have "Cleaned_Data wb =
      dataframe_to_rows (derive [student ''female'' (Some 60) (Some 72) (Some 74),
            student ''male'' (Some 60) (Some 70) (Some 80)])"
    by (simp add: fill_missing_one_missing)
  then have 2: "NaN \<notin> set (concat (Cleaned_Data wb))"
    by (auto simp: dataframe_to_rows_def derive_def derive_row_def row_values_def student_def
        str_cell_def num_cell_def average_def mean_def pd_cut_Some)
  from 1 2 show ?thesis by (simp add: wb)
qed

section \<open>The fallback branch\<close>

lemma export_fallback:
  assumes "\<not> openpyxl_imports e"
  shows "export e nargsort df0 = Inl IndexError \<or> export e nargsort df0 = Inl ImportError"
proof (cases "fill_missing df0")
  case (Inl err)
  then have "err = IndexError" by (cases err) (auto dest: fill_missing_Inl_IndexError)
  with Inl assms show ?thesis
    by (simp add: export_def OPENPYXL_OK_def build_fallback_def Let_def and_then_def)
next
  case (Inr df1)
  with assms show ?thesis
    by (simp add: export_def OPENPYXL_OK_def build_fallback_def Let_def and_then_def
        with_ExcelWriter_def ExcelWriter_def)
qed

lemma to_excel_complete:
  assumes "list_all row_complete df1"
  shows "to_excel (columns, map row_values (derive df1)) = dataframe_to_rows (derive df1)"
proof -
  have "map na_rep (row_values (derive_row r)) = row_values (derive_row r)"
    if "row_complete r" for r
    using that
    by (auto simp: row_values_def derive_row_def row_complete_def isna_def na_rep_def
        str_cell_def num_cell_def average_def mean_def pd_cut_Some)
  with assms have "map (map na_rep) (map row_values (derive df1)) = map row_values (derive df1)"
    by (simp add: derive_def list_all_iff)
  then show ?thesis
    by (simp add: to_excel_def dataframe_to_rows_def)
qed

text \<open>
  C7. Where \<^verbatim>\<open>openpyxl\<close> cannot be imported, \<^verbatim>\<open>OPENPYXL_OK\<close> is false, the script
  takes the fallback, and the fallback's writer asks for the engine \<^verbatim>\<open>'openpyxl'\<close>:
  making it raises \<^verbatim>\<open>ImportError\<close> before the body runs, whatever the body is. On a
  table the fill completes, the export ends with that error and no sheet is written.
\<close>

theorem fallback_writer_raises:
  "\<not> OPENPYXL_OK \<lparr>openpyxl_imports = False\<rparr>
   \<and> with_ExcelWriter \<lparr>openpyxl_imports = False\<rparr> body = Inl ImportError
   \<and> export \<lparr>openpyxl_imports = False\<rparr> stable_nargsort one_missing = Inl ImportError"
  by (simp add: OPENPYXL_OK_def with_ExcelWriter_def ExcelWriter_def and_then_def export_def
      build_fallback_def Let_def fill_missing_one_missing)

end
